theory Spec2Isabelle
  imports Main "HOL-Library.Multiset" "HOL-Library.Sublist"
    "HOL-Library.Char_ord" "HOL-Library.List_Lexorder"
begin

section \<open>Python values\<close>

text \<open>
  The values the modules exchange with Ansible and with the Azure SDK (module arguments,
  the result of \<^verbatim>\<open>as_dict()\<close>): \<^verbatim>\<open>None\<close>, booleans, integers, strings, lists and
  dictionaries with string keys. A dictionary is an association list in insertion order;
  a Python dictionary has no duplicate keys, and \<^verbatim>\<open>d.get(k)\<close> reads the first entry
  for \<open>k\<close>. Floating-point numbers are left out.
\<close>

datatype pyval =
    PNone
  | PBool bool
  | PInt int
  | PStr string
  | PList "pyval list"
  | PDict "(string \<times> pyval) list"

datatype error = IndexError | TypeError | AttributeError

text \<open>Truth value testing (\<^verbatim>\<open>if x\<close>, \<^verbatim>\<open>not x\<close>, \<^verbatim>\<open>while x\<close>).\<close>

fun truthy :: "pyval \<Rightarrow> bool" where
  "truthy PNone = False"
| "truthy (PBool b) = b"
| "truthy (PInt i) = (i \<noteq> 0)"
| "truthy (PStr s) = (s \<noteq> [])"
| "truthy (PList xs) = (xs \<noteq> [])"
| "truthy (PDict kvs) = (kvs \<noteq> [])"

text \<open>\<^verbatim>\<open>d.get(k, None)\<close> on a dictionary.\<close>

definition dict_get :: "(string \<times> pyval) list \<Rightarrow> string \<Rightarrow> pyval" where
  "dict_get kvs k = (case map_of kvs k of None \<Rightarrow> PNone | Some v \<Rightarrow> v)"

definition has_key :: "string \<Rightarrow> (string \<times> pyval) list \<Rightarrow> bool" where
  "has_key k kvs = (k \<in> set (map fst kvs))"

lemma size_map_of:
  "map_of kvs k = Some v \<Longrightarrow> size v < Suc (size_list (\<lambda>x. Suc (size (snd x))) kvs)"
  by (induction kvs) (auto split: if_splits)

lemma size_dict_get [termination_simp]:
  "k \<in> fst ` set kvs \<Longrightarrow>
   size (dict_get kvs k) < Suc (size_list (\<lambda>x. Suc (size (snd x))) kvs)"
  by (auto simp: dict_get_def dest: size_map_of split: option.splits)

lemma size_zip_fst [termination_simp]:
  "(x, y) \<in> set (zip xs ys) \<Longrightarrow> size x < Suc (size_list size xs)"
  by (auto dest!: set_zip_leftD simp: less_Suc_eq_le size_list_estimation')

text \<open>
  Equality \<^verbatim>\<open>==\<close>. \<^verbatim>\<open>bool\<close> is a subclass of \<^verbatim>\<open>int\<close>, so \<^verbatim>\<open>True == 1\<close>; lists are equal
  when they have the same length and equal elements; dictionaries are equal when they
  have the same number of keys and every key of the left one has an equal value on the
  right. Values of different kinds are unequal.
\<close>

fun py_eq :: "pyval \<Rightarrow> pyval \<Rightarrow> bool" where
  "py_eq PNone PNone = True"
| "py_eq (PBool a) (PBool b) = (a = b)"
| "py_eq (PBool a) (PInt j) = ((if a then 1 else 0) = j)"
| "py_eq (PInt i) (PBool b) = (i = (if b then 1 else 0))"
| "py_eq (PInt i) (PInt j) = (i = j)"
| "py_eq (PStr s) (PStr t) = (s = t)"
| "py_eq (PList xs) (PList ys) =
     (length xs = length ys \<and> (\<forall>(x, y) \<in> set (zip xs ys). py_eq x y))"
| "py_eq (PDict a) (PDict b) =
     (length a = length b \<and>
      (\<forall>k \<in> set (map fst a). has_key k b \<and> py_eq (dict_get a k) (dict_get b k)))"
| "py_eq _ _ = False"


text \<open>
  Ordering \<^verbatim>\<open><\<close> with the semantics of Python 3: numbers compare with numbers, strings
  with strings (lexicographically, by character code), lists with lists (at the first
  pair of unequal elements); every other pair raises \<^verbatim>\<open>TypeError\<close>. Under Python 2 no
  comparison raises, and wherever \<open>py_lt\<close> returns a value it is the value Python 2
  computes as well.
\<close>

fun py_lt :: "pyval \<Rightarrow> pyval \<Rightarrow> error + bool" where
  "py_lt (PBool a) (PBool b) = Inr ((if a then 1 else 0) < (if b then 1 else (0::int)))"
| "py_lt (PBool a) (PInt j) = Inr ((if a then 1 else 0) < j)"
| "py_lt (PInt i) (PBool b) = Inr (i < (if b then 1 else 0))"
| "py_lt (PInt i) (PInt j) = Inr (i < j)"
| "py_lt (PStr s) (PStr t) = Inr (s < t)"
| "py_lt (PList []) (PList ys) = Inr (ys \<noteq> [])"
| "py_lt (PList (x # xs)) (PList []) = Inr False"
| "py_lt (PList (x # xs)) (PList (y # ys)) =
     (if py_eq x y then py_lt (PList xs) (PList ys) else py_lt x y)"
| "py_lt _ _ = Inl TypeError"

text \<open>Membership \<^verbatim>\<open>k in x\<close> for a string \<open>k\<close>.\<close>

fun py_in :: "string \<Rightarrow> pyval \<Rightarrow> error + bool" where
  "py_in k (PDict kvs) = Inr (has_key k kvs)"
| "py_in k (PStr s) = Inr (sublist k s)"
| "py_in k (PList xs) = Inr (\<exists>x \<in> set xs. py_eq (PStr k) x)"
| "py_in k _ = Inl TypeError"

section \<open>The built-in \<^verbatim>\<open>sorted\<close>\<close>

text \<open>
  \<^verbatim>\<open>sorted(xs, key=f)\<close> first computes the key of every element, then sorts the
  elements by their keys, stably, using \<^verbatim>\<open><\<close> on keys only. It is modelled as a stable
  insertion sort; an exception raised by \<open>f\<close> or by a comparison ends the sort.
\<close>

fun decorate :: "(pyval \<Rightarrow> error + pyval) \<Rightarrow> pyval list \<Rightarrow> error + (pyval \<times> pyval) list" where
  "decorate f [] = Inr []"
| "decorate f (x # xs) =
     (case f x of
        Inl e \<Rightarrow> Inl e
      | Inr k \<Rightarrow> (case decorate f xs of Inl e \<Rightarrow> Inl e | Inr r \<Rightarrow> Inr ((k, x) # r)))"

fun insort_py :: "pyval \<times> pyval \<Rightarrow> (pyval \<times> pyval) list \<Rightarrow> error + (pyval \<times> pyval) list" where
  "insort_py kx [] = Inr [kx]"
| "insort_py kx (ky # rest) =
     (case py_lt (fst ky) (fst kx) of
        Inl e \<Rightarrow> Inl e
      | Inr lt \<Rightarrow>
          if lt then (case insort_py kx rest of Inl e \<Rightarrow> Inl e | Inr r \<Rightarrow> Inr (ky # r))
          else Inr (kx # ky # rest))"

fun sort_py :: "(pyval \<times> pyval) list \<Rightarrow> error + (pyval \<times> pyval) list" where
  "sort_py [] = Inr []"
| "sort_py (kx # rest) =
     (case sort_py rest of Inl e \<Rightarrow> Inl e | Inr r \<Rightarrow> insort_py kx r)"

definition sorted_py :: "(pyval \<Rightarrow> error + pyval) \<Rightarrow> pyval list \<Rightarrow> error + pyval list" where
  "sorted_py f xs =
     (case decorate f xs of
        Inl e \<Rightarrow> Inl e
      | Inr kxs \<Rightarrow> (case sort_py kxs of Inl e \<Rightarrow> Inl e | Inr r \<Rightarrow> Inr (map snd r)))"

lemma decorate_snd: "decorate f xs = Inr kxs \<Longrightarrow> map snd kxs = xs"
  by (induction xs arbitrary: kxs) (auto split: sum.splits)

lemma mset_insort_py: "insort_py kx r = Inr r' \<Longrightarrow> mset r' = add_mset kx (mset r)"
  by (induction r arbitrary: r') (auto split: sum.splits if_splits)

lemma mset_sort_py: "sort_py kxs = Inr r \<Longrightarrow> mset r = mset kxs"
  by (induction kxs arbitrary: r) (auto split: sum.splits dest: mset_insort_py)

lemma mset_sorted_py: "sorted_py f xs = Inr ys \<Longrightarrow> mset ys = mset xs"
proof -
  assume a: "sorted_py f xs = Inr ys"
  then obtain kxs r where d: "decorate f xs = Inr kxs" and s: "sort_py kxs = Inr r"
    and ys: "ys = map snd r"
    by (auto simp: sorted_py_def split: sum.splits)
  have "mset (map snd r) = mset (map snd kxs)"
    using mset_sort_py [OF s] by (metis mset_map)
  with decorate_snd [OF d] ys show ?thesis by simp
qed

lemma set_sorted_py: "sorted_py f xs = Inr ys \<Longrightarrow> set ys = set xs"
  by (metis mset_sorted_py set_mset_mset)

section \<open>The comparator \<^verbatim>\<open>default_compare\<close>\<close>

text \<open>
  The five modules carry the same function, character for character (the Redis module
  has none). The sort key of a list of dictionaries is read off the first elements:
  \<^verbatim>\<open>'id' in old[0] and 'id' in new[0]\<close>, then the same for \<^verbatim>\<open>'name'\<close>.
\<close>

definition both_have :: "string \<Rightarrow> pyval \<Rightarrow> pyval \<Rightarrow> error + bool" where
  "both_have k old0 new0 =
     (case py_in k old0 of
        Inl e \<Rightarrow> Inl e
      | Inr b \<Rightarrow> if b then py_in k new0 else Inr False)"

definition discover_key :: "pyval \<Rightarrow> pyval \<Rightarrow> error + string option" where
  "discover_key old0 new0 =
     (case both_have ''id'' old0 new0 of
        Inl e \<Rightarrow> Inl e
      | Inr b \<Rightarrow>
          if b then Inr (Some ''id'')
          else (case both_have ''name'' old0 new0 of
                  Inl e \<Rightarrow> Inl e
                | Inr c \<Rightarrow> Inr (if c then Some ''name'' else None)))"

text \<open>The key function \<^verbatim>\<open>lambda x: x.get(key, None)\<close>; only a dictionary has \<^verbatim>\<open>get\<close>.\<close>

fun sort_key_of :: "string option \<Rightarrow> pyval \<Rightarrow> error + pyval" where
  "sort_key_of None (PDict kvs) = Inr PNone"
| "sort_key_of (Some k) (PDict kvs) = Inr (dict_get kvs k)"
| "sort_key_of key _ = Inl AttributeError"

fun is_dict :: "pyval \<Rightarrow> bool" where
  "is_dict (PDict kvs) = True"
| "is_dict _ = False"

text \<open>
  The two sorts of the list branch: by the discovered key when \<^verbatim>\<open>old[0]\<close> is a
  dictionary, by the elements themselves otherwise. \<open>old0\<close> and \<open>new0\<close> are \<^verbatim>\<open>old[0]\<close>
  and \<^verbatim>\<open>new[0]\<close>.
\<close>

definition sort_both ::
  "pyval \<Rightarrow> pyval \<Rightarrow> pyval list \<Rightarrow> pyval list \<Rightarrow> error + (pyval list \<times> pyval list)" where
  "sort_both old0 new0 new old =
     (if is_dict old0 then
        (case discover_key old0 new0 of
           Inl e \<Rightarrow> Inl e
         | Inr key \<Rightarrow>
             (case sorted_py (sort_key_of key) new of
                Inl e \<Rightarrow> Inl e
              | Inr new' \<Rightarrow>
                  (case sorted_py (sort_key_of key) old of
                     Inl e \<Rightarrow> Inl e
                   | Inr old' \<Rightarrow> Inr (new', old'))))
      else
        (case sorted_py Inr new of
           Inl e \<Rightarrow> Inl e
         | Inr new' \<Rightarrow>
             (case sorted_py Inr old of
                Inl e \<Rightarrow> Inl e
              | Inr old' \<Rightarrow> Inr (new', old'))))"

lemma sort_both_set: "sort_both old0 new0 new old = Inr (new', old') \<Longrightarrow> set new' = set new"
  by (auto simp: sort_both_def split: if_splits sum.splits dest: set_sorted_py)

lemma zip_sort_both_size:
  assumes "sort_both old0 new0 new old = Inr (new', old')" and "(n, ol) \<in> set (zip new' old')"
  shows "size n < Suc (size_list size new)"
proof -
  have "n \<in> set new'"
    using assms(2) by (rule set_zip_leftD)
  then have "n \<in> set new"
    using sort_both_set [OF assms(1)] by simp
  then show ?thesis
    by (simp add: less_Suc_eq_le size_list_estimation')
qed

text \<open>
  The loops \<^verbatim>\<open>for ...: if not default_compare(...): return False\<close> followed by
  \<^verbatim>\<open>return True\<close>: the first element that compares unequal, or raises, ends the loop.
\<close>

fun all_equal :: "('a \<Rightarrow> error + bool) \<Rightarrow> 'a list \<Rightarrow> error + bool" where
  "all_equal f [] = Inr True"
| "all_equal f (x # xs) =
     (case f x of Inl e \<Rightarrow> Inl e | Inr b \<Rightarrow> if b then all_equal f xs else Inr False)"

lemma all_equal_cong [fundef_cong]:
  "xs = ys \<Longrightarrow> (\<And>x. x \<in> set ys \<Longrightarrow> f x = g x) \<Longrightarrow> all_equal f xs = all_equal g ys"
  by (induction ys arbitrary: xs) (auto split: sum.splits)

function default_compare :: "pyval \<Rightarrow> pyval \<Rightarrow> string \<Rightarrow> error + bool" where
  "default_compare PNone old path = Inr True"
| "default_compare (PDict new) old path =
     (case old of
        PDict oldd \<Rightarrow>
          all_equal (\<lambda>k. default_compare (dict_get new k) (dict_get oldd k) (path @ ''/'' @ k))
            (map fst new)
      | _ \<Rightarrow> Inr False)"
| "default_compare (PList new) old path =
     (case old of
        PList oldl \<Rightarrow>
          if length new \<noteq> length oldl then Inr False
          else (case (oldl, new) of
                  (old0 # _, new0 # _) \<Rightarrow>
                    (case sort_both old0 new0 new oldl of
                       Inl e \<Rightarrow> Inl e
                     | Inr (new', old') \<Rightarrow>
                         all_equal (\<lambda>(n, ol). default_compare n ol (path @ ''/*''))
                           (zip new' old'))
                | _ \<Rightarrow> Inl IndexError)
      | _ \<Rightarrow> Inr False)"
| "default_compare (PBool b) old path = Inr (py_eq (PBool b) old)"
| "default_compare (PInt i) old path = Inr (py_eq (PInt i) old)"
| "default_compare (PStr s) old path = Inr (py_eq (PStr s) old)"
  by pat_completeness auto
termination
proof (relation "measure (\<lambda>(new, old, path). size new)", goal_cases)
  case 1
  show ?case by simp
next
  case (2 new old path oldd k)
  have "size_prod (\<lambda>x. 0) size = (\<lambda>x :: string \<times> pyval. Suc (size (snd x)))"
    by (auto simp: fun_eq_iff)
  with 2 show ?case by (simp add: size_dict_get)
next
  case 3
  then show ?case
    by (auto dest: zip_sort_both_size)
qed

section \<open>The resource client\<close>

text \<open>
  The Azure SDK client is outside the repository. A call either returns or raises
  \<^verbatim>\<open>CloudError\<close>; the kind of fault is what a caller could tell apart. \<open>get_reply c n\<close>
  is the answer to the \<open>n\<close>-th \<^verbatim>\<open>get\<close> of an invocation (the dictionary \<^verbatim>\<open>as_dict()\<close>
  gives), so that the resource may disappear between two calls. An answer to
  \<^verbatim>\<open>create_or_update\<close> is the final one, after \<^verbatim>\<open>get_poller_result\<close> has waited for a
  long-running operation.
\<close>

datatype fault = NotFound | AuthFault | NetworkFault | ServerFault

datatype 'a reply = Returned 'a | CloudError fault

record client =
  get_reply :: "nat \<Rightarrow> (string \<times> pyval) list reply"
  create_or_update_reply :: "pyval \<Rightarrow> (string \<times> pyval) list reply"
  delete_reply :: "unit reply"

text \<open>What an invocation does to the outside, in order.\<close>

datatype call = CallGet | CallCreateOrUpdate pyval | CallDelete | Sleep nat

section \<open>The reconciliation driver\<close>

text \<open>
  \<^verbatim>\<open>class Actions: NoAction, Create, Update, Delete = range(4)\<close>, and the argument
  \<^verbatim>\<open>state\<close> with its two choices.
\<close>

datatype action = NoAction | Create | Update | Delete

datatype target = Present | Absent

text \<open>
  \<^verbatim>\<open>self.results\<close> is a dictionary holding \<^verbatim>\<open>changed\<close> and what \<^verbatim>\<open>format_item\<close> adds.
  \<^verbatim>\<open>self.fail\<close> ends the invocation with a message (\<^verbatim>\<open>fail_json\<close> exits); an exception
  nobody catches ends it as well.
\<close>

record results =
  changed :: bool
  returned :: "(string \<times> pyval) list"

datatype failure = ErrorCreating fault | ErrorDeleting fault

datatype outcome = Exit results | Fail failure | Raise error

text \<open>
  What differs between the four modules written from the one template (MariaDB firewall
  rule, DevTest Labs environment, user and global schedule): the first argument of
  \<^verbatim>\<open>default_compare\<close>, the arguments of \<^verbatim>\<open>create_or_update\<close> and the keys \<^verbatim>\<open>format_item\<close>
  keeps. \<open>desired\<close> is what evaluating that first argument gives: a value, or the exception
  the expression raises.
\<close>

record module_params =
  state :: target
  check_mode :: bool
  desired :: "error + pyval"
  payload :: pyval
  item_keys :: "string list"

text \<open>
  \<^verbatim>\<open>get_firewallrule\<close>, \<^verbatim>\<open>get_environment\<close>, \<^verbatim>\<open>get_user\<close>, \<^verbatim>\<open>get_globalschedule\<close>:
  \<^verbatim>\<open>except CloudError\<close> catches every fault of the lookup and the function returns
  \<^verbatim>\<open>False\<close>.
\<close>

definition get_instance :: "client \<Rightarrow> nat \<Rightarrow> pyval" where
  "get_instance c n =
     (case get_reply c n of Returned d \<Rightarrow> PDict d | CloudError f \<Rightarrow> PBool False)"

definition format_item :: "string list \<Rightarrow> pyval \<Rightarrow> error + (string \<times> pyval) list" where
  "format_item ks d =
     (case d of
        PDict kvs \<Rightarrow> Inr (map (\<lambda>k. (k, dict_get kvs k)) ks)
      | _ \<Rightarrow> Inl AttributeError)"

text \<open>
  The choice of \<^verbatim>\<open>self.to_do\<close>, which starts as \<^verbatim>\<open>NoAction\<close>. The first argument of
  \<^verbatim>\<open>default_compare\<close> is evaluated only where the call stands: with target \<^verbatim>\<open>present\<close>
  and a lookup that found the resource.
\<close>

definition decide :: "target \<Rightarrow> error + pyval \<Rightarrow> pyval \<Rightarrow> error + action" where
  "decide st des old_response =
     (if \<not> truthy old_response then
        (if st = Absent then Inr NoAction else Inr Create)
      else if st = Absent then Inr Delete
      else (case des of
              Inl e \<Rightarrow> Inl e
            | Inr new \<Rightarrow>
                (case default_compare new old_response '''' of
                   Inl e \<Rightarrow> Inl e
                 | Inr same \<Rightarrow> Inr (if \<not> same then Update else NoAction))))"

text \<open>
  \<^verbatim>\<open>while self.get_...(): time.sleep(20)\<close>. The loop has no bound; \<open>fuel\<close> bounds the
  number of lookups of the model, and \<open>None\<close> says that the loop has not ended within it.
  \<open>n\<close> counts the lookups made before.
\<close>

fun wait_deleted :: "nat \<Rightarrow> client \<Rightarrow> nat \<Rightarrow> call list option" where
  "wait_deleted 0 c n = None"
| "wait_deleted (Suc fuel) c n =
     (if truthy (get_instance c n)
      then map_option (\<lambda>tr. CallGet # Sleep 20 # tr) (wait_deleted fuel c (Suc n))
      else Some [CallGet])"

text \<open>The end of \<^verbatim>\<open>exec_module\<close>: \<^verbatim>\<open>if self.state == 'present': self.results.update(...)\<close>.\<close>

definition finish :: "module_params \<Rightarrow> bool \<Rightarrow> pyval \<Rightarrow> outcome" where
  "finish m ch response =
     (if state m = Present then
        (case format_item (item_keys m) response of
           Inl e \<Rightarrow> Raise e
         | Inr item \<Rightarrow> Exit \<lparr>changed = ch, returned = item\<rparr>)
      else Exit \<lparr>changed = ch, returned = []\<rparr>)"

definition exec_module :: "nat \<Rightarrow> client \<Rightarrow> module_params \<Rightarrow> (outcome \<times> call list) option" where
  "exec_module fuel c m =
     (let old_response = get_instance c 0 in
      case decide (state m) (desired m) old_response of
        Inl e \<Rightarrow> Some (Raise e, [CallGet])
      | Inr to_do \<Rightarrow>
          if to_do = Create \<or> to_do = Update then
            if check_mode m then Some (Exit \<lparr>changed = True, returned = []\<rparr>, [CallGet])
            else (case create_or_update_reply c (payload m) of
                    CloudError f \<Rightarrow>
                      Some (Fail (ErrorCreating f), [CallGet, CallCreateOrUpdate (payload m)])
                  | Returned r \<Rightarrow>
                      Some (finish m True (PDict r), [CallGet, CallCreateOrUpdate (payload m)]))
          else if to_do = Delete then
            if check_mode m then Some (Exit \<lparr>changed = True, returned = []\<rparr>, [CallGet])
            else (case delete_reply c of
                    CloudError f \<Rightarrow> Some (Fail (ErrorDeleting f), [CallGet, CallDelete])
                  | Returned _ \<Rightarrow>
                      (case wait_deleted fuel c 1 of
                         None \<Rightarrow> None
                       | Some tr \<Rightarrow> Some (finish m True PNone, [CallGet, CallDelete] @ tr)))
          else Some (finish m False old_response, [CallGet]))"

subsection \<open>The four modules of the template\<close>

text \<open>
  The firewall rule module compares and sends its two addresses:
  \<^verbatim>\<open>default_compare({'start_ip_address': ..., 'end_ip_address': ...}, old_response, '')\<close>.
\<close>

definition firewallrule :: "target \<Rightarrow> bool \<Rightarrow> pyval \<Rightarrow> pyval \<Rightarrow> module_params" where
  "firewallrule st chk start_ip_address end_ip_address =
     \<lparr>state = st, check_mode = chk,
      desired = Inr (PDict [(''start_ip_address'', start_ip_address),
                            (''end_ip_address'', end_ip_address)]),
      payload = PDict [(''start_ip_address'', start_ip_address),
                       (''end_ip_address'', end_ip_address)],
      item_keys = [''id'']\<rparr>"

text \<open>
  The three DevTest Labs modules send the dictionary they build from their arguments
  (\<^verbatim>\<open>self.dtl_environment\<close>, \<^verbatim>\<open>self.user\<close>, \<^verbatim>\<open>self.schedule\<close>), and compare
  \<^verbatim>\<open>default_compare(self.parameters, old_response, '')\<close>. Nothing assigns
  \<^verbatim>\<open>self.parameters\<close>: reading it raises \<^verbatim>\<open>AttributeError\<close> before the comparator is
  entered.
\<close>

definition environment :: "target \<Rightarrow> bool \<Rightarrow> (string \<times> pyval) list \<Rightarrow> module_params" where
  "environment st chk dtl_environment =
     \<lparr>state = st, check_mode = chk, desired = Inl AttributeError,
      payload = PDict dtl_environment, item_keys = [''id'']\<rparr>"

definition user :: "target \<Rightarrow> bool \<Rightarrow> (string \<times> pyval) list \<Rightarrow> module_params" where
  "user st chk usr =
     \<lparr>state = st, check_mode = chk, desired = Inl AttributeError,
      payload = PDict usr, item_keys = [''id'']\<rparr>"

definition globalschedule :: "target \<Rightarrow> bool \<Rightarrow> (string \<times> pyval) list \<Rightarrow> module_params" where
  "globalschedule st chk schedule =
     \<lparr>state = st, check_mode = chk, desired = Inl AttributeError,
      payload = PDict schedule, item_keys = [''id'', ''status'']\<rparr>"

subsection \<open>The lookup of the Redis cache module\<close>

text \<open>
  The file of the Redis cache module is not valid Python (a comma is missing in two calls,
  a brace is left over after a string) and its constructor names a class that is not
  defined: the module cannot be loaded, and its \<^verbatim>\<open>exec_module\<close> is not part of this
  model. Its lookup is written like the others: \<^verbatim>\<open>get_rediscache\<close> returns the value of
  \<^verbatim>\<open>rediscache_to_dict\<close> (which builds a dictionary and has no \<^verbatim>\<open>return\<close>) when the
  client's \<^verbatim>\<open>get\<close> returns, and \<^verbatim>\<open>False\<close> on every \<^verbatim>\<open>CloudError\<close>.
\<close>

definition rediscache_to_dict :: "(string \<times> pyval) list \<Rightarrow> pyval" where
  "rediscache_to_dict redis = PNone"

definition get_rediscache :: "client \<Rightarrow> nat \<Rightarrow> pyval" where
  "get_rediscache c n =
     (case get_reply c n of Returned d \<Rightarrow> rediscache_to_dict d | CloudError f \<Rightarrow> PBool False)"

section \<open>Examples and auxiliary notions\<close>

subsection \<open>Clients and invocations\<close>

text \<open>A rule that exists with an end address other than the desired one.\<close>

definition rule_5 :: "(string \<times> pyval) list" where
  "rule_5 = [(''id'', PStr ''rule1''), (''start_ip_address'', PStr ''10.0.0.1''),
             (''end_ip_address'', PStr ''10.0.0.5'')]"

definition rule_9 :: "(string \<times> pyval) list" where
  "rule_9 = [(''id'', PStr ''rule1''), (''start_ip_address'', PStr ''10.0.0.1''),
             (''end_ip_address'', PStr ''10.0.0.9'')]"

text \<open>The resource is not there: every lookup raises \<^verbatim>\<open>CloudError\<close> for not found.\<close>

definition client_gone :: client where
  "client_gone =
     \<lparr>get_reply = (\<lambda>n. CloudError NotFound),
      create_or_update_reply = (\<lambda>p. Returned rule_9),
      delete_reply = Returned ()\<rparr>"

text \<open>The service is down: every lookup raises \<^verbatim>\<open>CloudError\<close> for a server fault.\<close>

definition client_down :: client where
  "client_down =
     \<lparr>get_reply = (\<lambda>n. CloudError ServerFault),
      create_or_update_reply = (\<lambda>p. Returned rule_9),
      delete_reply = Returned ()\<rparr>"

text \<open>The resource is there and stays.\<close>

definition client_there :: client where
  "client_there =
     \<lparr>get_reply = (\<lambda>n. Returned rule_5),
      create_or_update_reply = (\<lambda>p. Returned rule_9),
      delete_reply = Returned ()\<rparr>"




text \<open>The lookup succeeds with an empty dictionary.\<close>

definition client_empty :: client where
  "client_empty =
     \<lparr>get_reply = (\<lambda>n. Returned []),
      create_or_update_reply = (\<lambda>p. Returned rule_9),
      delete_reply = Returned ()\<rparr>"

definition want_9 :: "target \<Rightarrow> bool \<Rightarrow> module_params" where
  "want_9 st chk = firewallrule st chk (PStr ''10.0.0.1'') (PStr ''10.0.0.9'')"

text \<open>A lab user that exists in another location than the desired one.\<close>

definition user_east :: "(string \<times> pyval) list" where
  "user_east = [(''id'', PStr ''user1''), (''location'', PStr ''eastus'')]"

definition want_west :: "(string \<times> pyval) list" where
  "want_west = [(''location'', PStr ''westus'')]"

definition client_user :: client where
  "client_user =
     \<lparr>get_reply = (\<lambda>n. Returned user_east),
      create_or_update_reply = (\<lambda>p. Returned [(''id'', PStr ''user1''),
                                                (''location'', PStr ''westus'')]),
      delete_reply = Returned ()\<rparr>"

subsection \<open>Lists of dictionaries\<close>

text \<open>
  For statements about lists of dictionaries: the value \<^verbatim>\<open>x.get(k)\<close> the sort reads,
  whether an element is a dictionary with the key \<open>k\<close>, and the two kinds of value that
  identify a resource, with the integer or the string inside.
\<close>

fun key_of :: "string \<Rightarrow> pyval \<Rightarrow> pyval" where
  "key_of k (PDict kvs) = dict_get kvs k"
| "key_of k v = PNone"

fun carries :: "string \<Rightarrow> pyval \<Rightarrow> bool" where
  "carries k (PDict kvs) = has_key k kvs"
| "carries k v = False"

fun is_int :: "pyval \<Rightarrow> bool" where
  "is_int (PInt i) = True"
| "is_int v = False"

fun is_str :: "pyval \<Rightarrow> bool" where
  "is_str (PStr s) = True"
| "is_str v = False"

fun int_of :: "pyval \<Rightarrow> int" where
  "int_of (PInt i) = i"
| "int_of v = 0"

fun str_of :: "pyval \<Rightarrow> string" where
  "str_of (PStr s) = s"
| "str_of v = []"

text \<open>The two lists of the specification's example.\<close>

definition ex_new :: "pyval list" where
  "ex_new = [PDict [(''id'', PInt 1), (''v'', PStr ''a'')],
             PDict [(''id'', PInt 2), (''v'', PStr ''b'')]]"

definition ex_old :: "pyval list" where
  "ex_old = [PDict [(''id'', PInt 2), (''v'', PStr ''b'')],
             PDict [(''id'', PInt 1), (''v'', PStr ''a'')]]"

section \<open>Properties of the comparator\<close>

text \<open>
  C1. The claim: comparing an empty desired list with an empty actual list returns true
  and never raises. The code: after the test of the lengths, the list branch reads
  \<^verbatim>\<open>old[0]\<close> without a guard, and on two empty lists that raises \<^verbatim>\<open>IndexError\<close>.
\<close>

theorem compare_empty_lists_raises:
  "default_compare (PList []) (PList []) '''' = Inl IndexError"
  by simp

text \<open>
  C8. The claim: \<^verbatim>\<open>default_compare(actual, actual)\<close> is true for every actual value. The
  code: an empty list anywhere in the value is compared with itself by the list branch,
  which raises \<^verbatim>\<open>IndexError\<close> as above; here the value is \<^verbatim>\<open>{'tags': []}\<close>.
\<close>

theorem compare_with_itself_raises:
  "default_compare (PDict [(''tags'', PList [])]) (PDict [(''tags'', PList [])]) ''''
     = Inl IndexError"
  by (simp add: dict_get_def)

lemma all_equal_not_false:
  "(\<And>x. x \<in> set xs \<Longrightarrow> f x \<noteq> Inr False) \<Longrightarrow> all_equal f xs \<noteq> Inr False"
  by (induction xs) (auto split: sum.splits)

lemma sort_both_same:
  "sort_both o0 n0 xs xs = Inr (new', old') \<Longrightarrow> new' = old'"
  by (auto simp: sort_both_def split: if_splits sum.splits)

lemma zip_same: "(a, b) \<in> set (zip xs xs) \<Longrightarrow> a = b"
  by (induction xs) auto

text \<open>
  Apart from the exceptions, the comparator is reflexive: comparing a value with itself
  never returns false.
\<close>

lemma default_compare_self_not_false:
  "old = new \<Longrightarrow> default_compare new old path \<noteq> Inr False"
proof (induction new old path rule: default_compare.induct)
  case (1 old path)
  show ?case by simp
next
  case (2 new old path)
  have "default_compare (dict_get new k) (dict_get new k) (path @ ''/'' @ k) \<noteq> Inr False"
    if "k \<in> set (map fst new)" for k
    by (rule 2(1) [OF 2(2) that refl])
  then have "all_equal (\<lambda>k. default_compare (dict_get new k) (dict_get new k) (path @ ''/'' @ k))
      (map fst new) \<noteq> Inr False"
    by (rule all_equal_not_false)
  then show ?case
    unfolding 2(2) by simp
next
  case (3 new old path)
  show ?case
  proof (cases new)
    case Nil
    show ?thesis
      unfolding 3(2) Nil by simp
  next
    case (Cons n0 ns)
    show ?thesis
    proof (cases "sort_both n0 n0 new new")
      case (Inl e)
      then have "sort_both n0 n0 (n0 # ns) (n0 # ns) = Inl e"
        by (simp only: Cons)
      then show ?thesis
        unfolding 3(2) Cons by simp
    next
      case (Inr pr)
      obtain new' old' where pr: "pr = (new', old')"
        by (cases pr)
      have "sort_both n0 n0 new new = Inr (new', old')"
        using Inr pr by simp
      then have eq: "old' = new'"
        by (rule sort_both_same [symmetric])
      have len: "\<not> length new \<noteq> length new"
        by simp
      have "(case x of (n, ol) \<Rightarrow> default_compare n ol (path @ ''/*'')) \<noteq> Inr False"
        if mem: "x \<in> set (zip new' old')" for x
      proof -
        obtain n ol where x: "x = (n, ol)"
          by (cases x)
        from mem have "(n, ol) \<in> set (zip new' new')"
          unfolding x eq .
        then have same: "ol = n"
          by (rule zip_same [symmetric])
        have "default_compare n ol (path @ ''/*'') \<noteq> Inr False"
        proof (rule 3(1) [of new new new n0 ns n0 ns pr new' old' x n ol])
          show "old = PList new" by (rule 3(2))
          show "\<not> length new \<noteq> length new" by simp
          show "(new, new) = (new, new)" by (rule refl)
          show "new = n0 # ns" by (rule Cons)
          show "new = n0 # ns" by (rule Cons)
          show "sort_both n0 n0 new new = Inr pr" by (rule Inr)
          show "(new', old') = pr" by (rule pr [symmetric])
          show "x \<in> set (zip new' old')" by (rule mem)
          show "(n, ol) = x" by (rule x [symmetric])
          show "ol = n" by (rule same)
        qed
        then show ?thesis using x by simp
      qed
      then have ae: "all_equal (\<lambda>(n, ol). default_compare n ol (path @ ''/*'')) (zip new' old')
          \<noteq> Inr False"
        by (rule all_equal_not_false)
      have "sort_both n0 n0 (n0 # ns) (n0 # ns) = Inr (new', old')"
        using Inr pr by (simp only: Cons)
      with ae show ?thesis
        unfolding 3(2) Cons by simp
    qed
  qed
qed simp_all

subsection \<open>The sort as a sort by a linear order\<close>

text \<open>
  Where every comparison of two keys returns, and agrees with a linear order, \<open>sorted_py\<close>
  is the stable insertion sort of the library.
\<close>

lemma insort_py_emb:
  fixes emb :: "pyval \<Rightarrow> 'b::linorder"
  assumes "\<And>y. y \<in> set r \<Longrightarrow> py_lt (kf y) (kf x) = Inr (emb (kf y) < emb (kf x))"
  shows "insort_py (kf x, x) (map (\<lambda>y. (kf y, y)) r)
           = Inr (map (\<lambda>y. (kf y, y)) (insort_key (\<lambda>y. emb (kf y)) x r))"
  using assms by (induction r) (auto simp: not_le)

lemma sort_py_emb:
  fixes emb :: "pyval \<Rightarrow> 'b::linorder"
  assumes "\<And>x y. x \<in> set xs \<Longrightarrow> y \<in> set xs \<Longrightarrow> py_lt (kf y) (kf x) = Inr (emb (kf y) < emb (kf x))"
  shows "sort_py (map (\<lambda>y. (kf y, y)) xs) = Inr (map (\<lambda>y. (kf y, y)) (sort_key (\<lambda>y. emb (kf y)) xs))"
  using assms
proof (induction xs)
  case Nil
  show ?case by simp
next
  case (Cons x xs)
  have ih: "sort_py (map (\<lambda>y. (kf y, y)) xs) = Inr (map (\<lambda>y. (kf y, y)) (sort_key (\<lambda>y. emb (kf y)) xs))"
    by (rule Cons.IH) (simp add: Cons.prems)
  have "insort_py (kf x, x) (map (\<lambda>y. (kf y, y)) (sort_key (\<lambda>y. emb (kf y)) xs))
      = Inr (map (\<lambda>y. (kf y, y)) (insort_key (\<lambda>y. emb (kf y)) x (sort_key (\<lambda>y. emb (kf y)) xs)))"
    by (rule insort_py_emb) (simp add: Cons.prems)
  with ih show ?case by simp
qed

lemma decorate_total:
  "(\<And>x. x \<in> set xs \<Longrightarrow> f x = Inr (kf x)) \<Longrightarrow> decorate f xs = Inr (map (\<lambda>x. (kf x, x)) xs)"
  by (induction xs) auto

lemma sorted_py_emb:
  fixes emb :: "pyval \<Rightarrow> 'b::linorder"
  assumes "\<And>x. x \<in> set xs \<Longrightarrow> f x = Inr (kf x)"
    and "\<And>x y. x \<in> set xs \<Longrightarrow> y \<in> set xs \<Longrightarrow> py_lt (kf y) (kf x) = Inr (emb (kf y) < emb (kf x))"
  shows "sorted_py f xs = Inr (sort_key (\<lambda>y. emb (kf y)) xs)"
  using decorate_total [of xs f kf, OF assms(1)] sort_py_emb [of xs kf emb, OF assms(2)]
  by (simp add: sorted_py_def comp_def)

lemma sorted_py_perm:
  fixes emb :: "pyval \<Rightarrow> 'b::linorder"
  assumes "\<And>x. x \<in> set xs \<Longrightarrow> f x = Inr (kf x)"
    and "\<And>x y. x \<in> set xs \<Longrightarrow> y \<in> set xs \<Longrightarrow> py_lt (kf y) (kf x) = Inr (emb (kf y) < emb (kf x))"
    and "inj_on (\<lambda>y. emb (kf y)) (set xs)"
    and "mset ys = mset xs"
  shows "sorted_py f ys = sorted_py f xs"
proof -
  have s: "set ys = set xs"
    using assms(4) by (rule mset_eq_setD)
  have a: "sorted_py f xs = Inr (sort_key (\<lambda>y. emb (kf y)) xs)"
    using assms(1,2) by (rule sorted_py_emb)
  have b: "sorted_py f ys = Inr (sort_key (\<lambda>y. emb (kf y)) ys)"
    by (rule sorted_py_emb) (simp_all add: s assms(1,2))
  have "sort_key (\<lambda>y. emb (kf y)) xs = sort_key (\<lambda>y. emb (kf y)) ys"
    by (rule sort_key_inj_key_eq) (simp_all add: assms(3,4))
  with a b show ?thesis by simp
qed

lemma sort_key_of_carries: "carries k x \<Longrightarrow> sort_key_of (Some k) x = Inr (key_of k x)"
  by (cases x) simp_all

lemma carries_is_dict: "carries k x \<Longrightarrow> is_dict x"
  by (cases x) simp_all

lemma py_lt_int: "is_int a \<Longrightarrow> is_int b \<Longrightarrow> py_lt a b = Inr (int_of a < int_of b)"
  by (cases a; cases b) simp_all

lemma py_lt_str: "is_str a \<Longrightarrow> is_str b \<Longrightarrow> py_lt a b = Inr (str_of a < str_of b)"
  by (cases a; cases b) simp_all

lemma int_of_inj: "is_int a \<Longrightarrow> is_int b \<Longrightarrow> int_of a = int_of b \<Longrightarrow> a = b"
  by (cases a; cases b) simp_all

lemma str_of_inj: "is_str a \<Longrightarrow> is_str b \<Longrightarrow> str_of a = str_of b \<Longrightarrow> a = b"
  by (cases a; cases b) simp_all

text \<open>
  Sorting by a key that every element carries, with key values that are all integers or
  all strings and pairwise distinct, does not depend on the order of the input.
\<close>

lemma sorted_py_perm_keys:
  assumes c: "\<forall>x \<in> set old. carries k x"
    and kind: "(\<forall>x \<in> set old. is_int (key_of k x)) \<or> (\<forall>x \<in> set old. is_str (key_of k x))"
    and d: "distinct (map (key_of k) old)"
    and p: "mset old' = mset old"
  shows "sorted_py (sort_key_of (Some k)) old' = sorted_py (sort_key_of (Some k)) old"
proof -
  have f: "sort_key_of (Some k) x = Inr (key_of k x)" if "x \<in> set old" for x
    using that c by (simp add: sort_key_of_carries)
  have inj: "inj_on (key_of k) (set old)"
    using d by (simp add: distinct_map)
  from kind show ?thesis
  proof
    assume i: "\<forall>x \<in> set old. is_int (key_of k x)"
    have lt: "py_lt (key_of k y) (key_of k x) = Inr (int_of (key_of k y) < int_of (key_of k x))"
      if "x \<in> set old" "y \<in> set old" for x y
      using that i by (simp add: py_lt_int)
    have "inj_on (\<lambda>y. int_of (key_of k y)) (set old)"
    proof (rule inj_onI)
      fix x y
      assume x: "x \<in> set old" and y: "y \<in> set old"
        and e: "int_of (key_of k x) = int_of (key_of k y)"
      have "key_of k x = key_of k y"
        using i x y e by (blast intro: int_of_inj)
      with inj x y show "x = y"
        by (simp add: inj_on_def)
    qed
    with f lt show ?thesis
      using p by (rule sorted_py_perm)
  next
    assume i: "\<forall>x \<in> set old. is_str (key_of k x)"
    have lt: "py_lt (key_of k y) (key_of k x) = Inr (str_of (key_of k y) < str_of (key_of k x))"
      if "x \<in> set old" "y \<in> set old" for x y
      using that i by (simp add: py_lt_str)
    have "inj_on (\<lambda>y. str_of (key_of k y)) (set old)"
    proof (rule inj_onI)
      fix x y
      assume x: "x \<in> set old" and y: "y \<in> set old"
        and e: "str_of (key_of k x) = str_of (key_of k y)"
      have "key_of k x = key_of k y"
        using i x y e by (blast intro: str_of_inj)
      with inj x y show "x = y"
        by (simp add: inj_on_def)
    qed
    with f lt show ?thesis
      using p by (rule sorted_py_perm)
  qed
qed

lemma discover_key_carried:
  assumes "carries k o0" and "carries k n0"
    and "k = ''id'' \<or> (k = ''name'' \<and> (\<not> carries ''id'' o0 \<or> \<not> carries ''id'' n0))"
  shows "discover_key o0 n0 = Inr (Some k)"
  using assms by (cases o0; cases n0) (auto simp: discover_key_def both_have_def)

text \<open>
  C7, as the claim states it, fails when two elements carry the same \<^verbatim>\<open>id\<close>: the sort is
  stable, so elements with equal keys stay in the order of the input, and the result
  follows the order of the actual list.
\<close>

theorem compare_follows_order_of_equal_ids:
  "default_compare
     (PList [PDict [(''id'', PInt 1), (''v'', PStr ''a'')],
             PDict [(''id'', PInt 1), (''v'', PStr ''b'')]])
     (PList [PDict [(''id'', PInt 1), (''v'', PStr ''a'')],
             PDict [(''id'', PInt 1), (''v'', PStr ''b'')]]) '''' = Inr True \<and>
   default_compare
     (PList [PDict [(''id'', PInt 1), (''v'', PStr ''a'')],
             PDict [(''id'', PInt 1), (''v'', PStr ''b'')]])
     (PList [PDict [(''id'', PInt 1), (''v'', PStr ''b'')],
             PDict [(''id'', PInt 1), (''v'', PStr ''a'')]]) '''' = Inr False"
  by (simp add: sort_both_def discover_key_def both_have_def has_key_def sorted_py_def
      dict_get_def)

text \<open>
  C7, amended. Let every element of both lists be a dictionary that carries the key \<open>k\<close>,
  where \<open>k\<close> is \<^verbatim>\<open>id\<close>, or \<open>k\<close> is \<^verbatim>\<open>name\<close> and no element of the actual list (or none of
  the desired list) carries \<^verbatim>\<open>id\<close>; and let the values under \<open>k\<close> in the actual list be
  all integers or all strings, and pairwise distinct. Then the comparison gives the same
  result for every permutation of the actual list.
\<close>

theorem compare_permutation_invariant:
  assumes c: "\<forall>x \<in> set new \<union> set old. carries k x"
    and k: "k = ''id'' \<or>
            (k = ''name'' \<and>
             ((\<forall>x \<in> set old. \<not> carries ''id'' x) \<or> (\<forall>x \<in> set new. \<not> carries ''id'' x)))"
    and kind: "(\<forall>x \<in> set old. is_int (key_of k x)) \<or> (\<forall>x \<in> set old. is_str (key_of k x))"
    and d: "distinct (map (key_of k) old)"
    and p: "mset old' = mset old"
  shows "default_compare (PList new) (PList old') path
           = default_compare (PList new) (PList old) path"
proof (cases "length new = length old")
  case False
  moreover have "length old' = length old"
    using p by (rule mset_eq_length)
  ultimately show ?thesis by simp
next
  case len: True
  have len': "length old' = length old"
    using p by (rule mset_eq_length)
  have s: "set old' = set old"
    using p by (rule mset_eq_setD)
  show ?thesis
  proof (cases old)
    case Nil
    with len' show ?thesis by simp
  next
    case (Cons o0 os)
    with len obtain n0 ns where new: "new = n0 # ns"
      by (cases new) auto
    from Cons len' obtain o0' os' where old': "old' = o0' # os'"
      by (cases old') auto
    have o0: "o0 \<in> set old" and o0': "o0' \<in> set old" and n0: "n0 \<in> set new"
      using Cons old' new s by auto
    have key: "discover_key o0 n0 = Inr (Some k)"
      using c k o0 n0 by (intro discover_key_carried) auto
    have key': "discover_key o0' n0 = Inr (Some k)"
      using c k o0' n0 by (intro discover_key_carried) auto
    have dict: "is_dict o0" "is_dict o0'"
      using c o0 o0' by (auto intro: carries_is_dict)
    have srt: "sorted_py (sort_key_of (Some k)) old' = sorted_py (sort_key_of (Some k)) old"
      using c kind d p by (intro sorted_py_perm_keys) auto
    have "sort_both o0' n0 new old' = sort_both o0 n0 new old"
      by (simp add: sort_both_def key key' dict srt split: sum.splits)
    then show ?thesis
      using len len' by (simp add: Cons old' new)
  qed
qed

theorem compare_permutation_invariant_witness:
  "mset ex_old = mset ex_new \<and> distinct (map (key_of ''id'') ex_new) \<and>
   default_compare (PList ex_new) (PList ex_old) '''' = Inr True"
proof -
  have h1: "\<forall>x \<in> set ex_new \<union> set ex_new. carries ''id'' x"
    by (simp add: ex_new_def has_key_def)
  have h2: "''id'' = ''id'' \<or>
      (''id'' = ''name'' \<and>
       ((\<forall>x \<in> set ex_new. \<not> carries ''id'' x) \<or> (\<forall>x \<in> set ex_new. \<not> carries ''id'' x)))"
    by simp
  have h3: "(\<forall>x \<in> set ex_new. is_int (key_of ''id'' x)) \<or>
      (\<forall>x \<in> set ex_new. is_str (key_of ''id'' x))"
    by (simp add: ex_new_def dict_get_def)
  have h4: "distinct (map (key_of ''id'') ex_new)"
    by (simp add: ex_new_def dict_get_def)
  have h5: "mset ex_old = mset ex_new"
    by (simp add: ex_old_def ex_new_def)
  have same: "default_compare (PList ex_new) (PList ex_new) '''' = Inr True"
    by (simp add: ex_new_def sort_both_def discover_key_def both_have_def has_key_def
        sorted_py_def dict_get_def)
  have "default_compare (PList ex_new) (PList ex_old) ''''
      = default_compare (PList ex_new) (PList ex_new) ''''"
    using h1 h2 h3 h4 h5 by (rule compare_permutation_invariant)
  with same h4 h5 show ?thesis by simp
qed

text \<open>
  C10. For two non-empty lists whose first elements are dictionaries, the sort key is
  read off the two first elements alone: \<^verbatim>\<open>id\<close> exactly when both carry it, else \<^verbatim>\<open>name\<close>
  exactly when both carry it, else none. Both whole lists are then sorted by
  \<^verbatim>\<open>x.get(key, None)\<close> and compared pairwise; whether a later element carries the key is
  never asked, and a dictionary that lacks it gets the sort key \<^verbatim>\<open>None\<close>.
\<close>

theorem sort_key_from_first_elements:
  "default_compare (PList (PDict n0 # ns)) (PList (PDict o0 # os)) path =
     (if length ns \<noteq> length os then Inr False
      else let key = (if has_key ''id'' o0 \<and> has_key ''id'' n0 then Some ''id''
                      else if has_key ''name'' o0 \<and> has_key ''name'' n0 then Some ''name''
                      else None)
           in (case sorted_py (sort_key_of key) (PDict n0 # ns) of
                 Inl e \<Rightarrow> Inl e
               | Inr new' \<Rightarrow>
                   (case sorted_py (sort_key_of key) (PDict o0 # os) of
                      Inl e \<Rightarrow> Inl e
                    | Inr old' \<Rightarrow>
                        all_equal (\<lambda>(n, ol). default_compare n ol (path @ ''/*''))
                          (zip new' old')))) \<and>
   (\<not> has_key k d \<longrightarrow> sort_key_of (Some k) (PDict d) = Inr PNone)"
proof -
  have key: "discover_key (PDict o0) (PDict n0) =
      Inr (if has_key ''id'' o0 \<and> has_key ''id'' n0 then Some ''id''
           else if has_key ''name'' o0 \<and> has_key ''name'' n0 then Some ''name''
           else None)"
    by (simp add: discover_key_def both_have_def)
  have none: "sort_key_of (Some k) (PDict d) = Inr PNone" if "\<not> has_key k d"
  proof -
    have "map_of d k = None"
      using that by (simp add: has_key_def map_of_eq_None_iff)
    then show ?thesis
      by (simp add: dict_get_def)
  qed
  show ?thesis
    using none by (simp add: sort_both_def key Let_def split: sum.splits)
qed

theorem sort_key_from_first_elements_witness:
  "\<not> has_key ''id'' [(''name'', PStr ''b'')] \<and>
   sort_key_of (Some ''id'') (PDict [(''name'', PStr ''b'')]) = Inr PNone \<and>
   default_compare
     (PList [PDict [(''name'', PStr ''b'')], PDict [(''name'', PStr ''a'')]])
     (PList [PDict [(''name'', PStr ''a''), (''id'', PInt 7)], PDict [(''name'', PStr ''b'')]])
     [] = Inr True"
proof -
  have h: "\<not> has_key ''id'' [(''name'', PStr ''b'')]"
    by (simp add: has_key_def)
  note t = sort_key_from_first_elements [of "[(''name'', PStr ''b'')]"
      "[PDict [(''name'', PStr ''a'')]]" "[(''name'', PStr ''a''), (''id'', PInt 7)]"
      "[PDict [(''name'', PStr ''b'')]]" "[]" "''id''" "[(''name'', PStr ''b'')]"]
  from t h have a: "sort_key_of (Some ''id'') (PDict [(''name'', PStr ''b'')]) = Inr PNone"
    by blast
  from t have "default_compare
     (PList [PDict [(''name'', PStr ''b'')], PDict [(''name'', PStr ''a'')]])
     (PList [PDict [(''name'', PStr ''a''), (''id'', PInt 7)], PDict [(''name'', PStr ''b'')]])
     [] = Inr True"
    by (simp add: has_key_def sorted_py_def dict_get_def)
  with h a show ?thesis by blast
qed

section \<open>Properties of the driver\<close>

lemma get_instance_fault: "get_reply c n = CloudError f \<Longrightarrow> get_instance c n = PBool False"
  by (simp add: get_instance_def)

lemma get_instance_found: "get_reply c n = Returned d \<Longrightarrow> get_instance c n = PDict d"
  by (simp add: get_instance_def)

text \<open>
  C2. With target \<^verbatim>\<open>absent\<close> and a lookup that reports not found, each of the four modules
  decides \<open>NoAction\<close> and exits with \<^verbatim>\<open>changed = False\<close> after the one lookup: it makes no
  other call and reports no failure. (\<open>m\<close> ranges over the invocations of the four
  modules.)
\<close>

theorem absent_and_not_found:
  assumes "get_reply c 0 = CloudError NotFound" and "state m = Absent"
  shows "decide (state m) (desired m) (get_instance c 0) = Inr NoAction \<and>
         exec_module fuel c m = Some (Exit \<lparr>changed = False, returned = []\<rparr>, [CallGet])"
proof -
  have old: "get_instance c 0 = PBool False"
    using assms(1) by (rule get_instance_fault)
  have d: "decide (state m) (desired m) (get_instance c 0) = Inr NoAction"
    using assms(2) by (simp add: old decide_def)
  have e: "exec_module fuel c m = Some (Exit \<lparr>changed = False, returned = []\<rparr>, [CallGet])"
    using d assms(2) by (simp add: exec_module_def finish_def)
  from d e show ?thesis by simp
qed

theorem absent_and_not_found_witness:
  "get_reply client_gone 0 = CloudError NotFound \<and>
   exec_module 0 client_gone (firewallrule Absent False (PStr ''10.0.0.1'') (PStr ''10.0.0.9''))
     = Some (Exit \<lparr>changed = False, returned = []\<rparr>, [CallGet]) \<and>
   exec_module 0 client_gone (environment Absent False want_west)
     = Some (Exit \<lparr>changed = False, returned = []\<rparr>, [CallGet]) \<and>
   exec_module 0 client_gone (user Absent False want_west)
     = Some (Exit \<lparr>changed = False, returned = []\<rparr>, [CallGet]) \<and>
   exec_module 0 client_gone (globalschedule Absent False want_west)
     = Some (Exit \<lparr>changed = False, returned = []\<rparr>, [CallGet])"
proof -
  have h: "get_reply client_gone 0 = CloudError NotFound"
    by (simp add: client_gone_def)
  have f: "state (firewallrule Absent False (PStr ''10.0.0.1'') (PStr ''10.0.0.9'')) = Absent"
    by (simp add: firewallrule_def)
  have e: "state (environment Absent False want_west) = Absent"
    by (simp add: environment_def)
  have u: "state (user Absent False want_west) = Absent"
    by (simp add: user_def)
  have g: "state (globalschedule Absent False want_west) = Absent"
    by (simp add: globalschedule_def)
  from absent_and_not_found [OF h f, of 0] absent_and_not_found [OF h e, of 0]
    absent_and_not_found [OF h u, of 0] absent_and_not_found [OF h g, of 0] h
  show ?thesis by blast
qed

text \<open>
  C3, as the claim states it, fails: a lookup that raises \<^verbatim>\<open>CloudError\<close> for a server
  fault is not surfaced. The lookup returns \<^verbatim>\<open>False\<close>, and the module, with target
  \<^verbatim>\<open>present\<close>, goes on to create the resource.
\<close>

theorem server_fault_taken_for_absence:
  "get_instance client_down 0 = PBool False \<and>
   exec_module 0 client_down (want_9 Present False)
     = Some (Exit \<lparr>changed = True, returned = [(''id'', PStr ''rule1'')]\<rparr>,
             [CallGet, CallCreateOrUpdate (payload (want_9 Present False))])"
  by (simp add: exec_module_def get_instance_def client_down_def want_9_def firewallrule_def
      decide_def finish_def format_item_def rule_9_def dict_get_def)

text \<open>
  C3, amended. The lookup does not tell the faults apart: every \<^verbatim>\<open>CloudError\<close> of the
  first lookup, of whatever kind, is caught and becomes the value \<^verbatim>\<open>False\<close>, in the
  template and in the Redis module alike, and the driver then decides as for a resource
  that does not exist. No \<^verbatim>\<open>CloudError\<close> of a lookup is surfaced as a failure.
\<close>

theorem lookup_fault_is_absence:
  assumes "get_reply c 0 = CloudError f"
  shows "get_instance c 0 = PBool False \<and> get_rediscache c 0 = PBool False \<and>
         decide st des (get_instance c 0) = Inr (if st = Absent then NoAction else Create) \<and>
         (\<forall>fuel m r tr. exec_module fuel c m = Some (r, tr) \<longrightarrow> (\<forall>x. r \<noteq> Fail x \<or> tr \<noteq> [CallGet]))"
proof -
  have old: "get_instance c 0 = PBool False"
    using assms by (rule get_instance_fault)
  have red: "get_rediscache c 0 = PBool False"
    using assms by (simp add: get_rediscache_def)
  have d: "decide st des (get_instance c 0) = Inr (if st = Absent then NoAction else Create)"
    for st des
    by (simp add: old decide_def)
  have "r \<noteq> Fail x \<or> tr \<noteq> [CallGet]" if "exec_module fuel c m = Some (r, tr)" for fuel m r tr x
    using that d [of "state m" "desired m"]
    by (auto simp: exec_module_def finish_def split: if_splits reply.splits sum.splits)
  with old red d show ?thesis by blast
qed

theorem lookup_fault_is_absence_witness:
  "get_reply client_down 0 = CloudError ServerFault \<and>
   get_instance client_down 0 = PBool False \<and>
   decide Present (Inr PNone) (get_instance client_down 0) = Inr Create"
proof -
  have h: "get_reply client_down 0 = CloudError ServerFault"
    by (simp add: client_down_def)
  note t = lookup_fault_is_absence [OF h, of Present "Inr PNone"]
  from t have a: "get_instance client_down 0 = PBool False"
    by blast
  from t have "decide Present (Inr PNone) (get_instance client_down 0)
      = Inr (if Present = Absent then NoAction else Create)"
    by blast
  then have b: "decide Present (Inr PNone) (get_instance client_down 0) = Inr Create"
    by simp
  from h a b show ?thesis by blast
qed

text \<open>
  C4. In check mode, whenever the decision is \<open>Create\<close>, \<open>Update\<close> or \<open>Delete\<close>, a module of
  the template exits with \<^verbatim>\<open>changed = True\<close> after the one lookup: it calls neither
  \<^verbatim>\<open>create_or_update\<close> nor \<^verbatim>\<open>delete\<close>. The same invocation outside check mode, if it
  exits, reports \<^verbatim>\<open>changed = True\<close> as well.
\<close>

theorem check_mode_only_reports:
  assumes "check_mode m"
    and "decide (state m) (desired m) (get_instance c 0) = Inr to_do"
    and "to_do = Create \<or> to_do = Update \<or> to_do = Delete"
  shows "exec_module fuel c m = Some (Exit \<lparr>changed = True, returned = []\<rparr>, [CallGet]) \<and>
         (\<forall>fuel' r tr. exec_module fuel' c (m\<lparr>check_mode := False\<rparr>) = Some (Exit r, tr)
            \<longrightarrow> changed r)"
proof -
  have dry: "exec_module fuel c m = Some (Exit \<lparr>changed = True, returned = []\<rparr>, [CallGet])"
    using assms by (auto simp: exec_module_def)
  have "changed r" if "exec_module fuel' c (m\<lparr>check_mode := False\<rparr>) = Some (Exit r, tr)"
    for fuel' r tr
    using that assms(2,3)
    by (auto simp: exec_module_def finish_def split: if_splits reply.splits sum.splits option.splits)
  with dry show ?thesis by blast
qed

theorem check_mode_only_reports_witness:
  "check_mode (want_9 Absent True) \<and>
   decide (state (want_9 Absent True)) (desired (want_9 Absent True))
     (get_instance client_there 0) = Inr Delete \<and>
   exec_module 0 client_there (want_9 Absent True)
     = Some (Exit \<lparr>changed = True, returned = []\<rparr>, [CallGet])"
proof -
  have h1: "check_mode (want_9 Absent True)"
    by (simp add: want_9_def firewallrule_def)
  have h2: "decide (state (want_9 Absent True)) (desired (want_9 Absent True))
      (get_instance client_there 0) = Inr Delete"
    by (simp add: want_9_def firewallrule_def decide_def get_instance_def client_there_def
        rule_5_def)
  have h3: "Delete = Create \<or> Delete = Update \<or> Delete = Delete"
    by simp
  from check_mode_only_reports [OF h1 h2 h3, of 0]
  have "exec_module 0 client_there (want_9 Absent True)
      = Some (Exit \<lparr>changed = True, returned = []\<rparr>, [CallGet])"
    by (rule conjunct1)
  with h1 h2 show ?thesis by blast
qed

text \<open>The loop that waits for the deletion, started before lookup \<open>n\<close>.\<close>

lemma wait_deleted_pending:
  "(\<And>i. i < k \<Longrightarrow> truthy (get_instance c (n + i))) \<Longrightarrow> wait_deleted k c n = None"
proof (induction k arbitrary: n)
  case 0
  show ?case by simp
next
  case (Suc k)
  have "truthy (get_instance c n)"
    using Suc.prems [of 0] by simp
  moreover have "wait_deleted k c (Suc n) = None"
  proof (rule Suc.IH)
    fix i assume "i < k"
    then show "truthy (get_instance c (Suc n + i))"
      using Suc.prems [of "Suc i"] by simp
  qed
  ultimately show ?case by simp
qed

lemma wait_deleted_done:
  "(\<And>i. i < k \<Longrightarrow> truthy (get_instance c (n + i))) \<Longrightarrow> \<not> truthy (get_instance c (n + k)) \<Longrightarrow>
   k < fuel \<Longrightarrow>
   wait_deleted fuel c n = Some (concat (replicate k [CallGet, Sleep 20]) @ [CallGet])"
proof (induction k arbitrary: n fuel)
  case 0
  then obtain f where "fuel = Suc f"
    by (cases fuel) auto
  with 0 show ?case by simp
next
  case (Suc k)
  from Suc.prems(3) obtain f where f: "fuel = Suc f" and kf: "k < f"
    by (cases fuel) auto
  have now: "truthy (get_instance c n)"
    using Suc.prems(1) [of 0] by simp
  have "wait_deleted f c (Suc n) = Some (concat (replicate k [CallGet, Sleep 20]) @ [CallGet])"
  proof (rule Suc.IH)
    fix i assume "i < k"
    then show "truthy (get_instance c (Suc n + i))"
      using Suc.prems(1) [of "Suc i"] by simp
  next
    show "\<not> truthy (get_instance c (Suc n + k))"
      using Suc.prems(2) by simp
  next
    show "k < f" by (rule kf)
  qed
  with now f show ?case by simp
qed







text \<open>
  When the call of \<^verbatim>\<open>delete\<close> returns, the invocation returns right after the first lookup
  that finds nothing, and not before.
\<close>

lemma delete_returns_after_wait:
  assumes "state m = Absent" and "\<not> check_mode m"
    and "truthy (get_instance c 0)" and "delete_reply c = Returned ()"
    and "\<forall>i < k. truthy (get_instance c (Suc i))"
  shows "exec_module k c m = None \<and>
         (\<not> truthy (get_instance c (Suc k)) \<longrightarrow>
            (\<forall>fuel > k. exec_module fuel c m
               = Some (Exit \<lparr>changed = True, returned = []\<rparr>,
                       [CallGet, CallDelete] @ concat (replicate k [CallGet, Sleep 20])
                         @ [CallGet])))"
proof -
  have d: "decide (state m) (desired m) (get_instance c 0) = Inr Delete"
    using assms(1,3) by (simp add: decide_def)
  have run: "exec_module fuel c m =
      (case wait_deleted fuel c 1 of
         None \<Rightarrow> None
       | Some tr \<Rightarrow> Some (Exit \<lparr>changed = True, returned = []\<rparr>, [CallGet, CallDelete] @ tr))"
    for fuel
    using d assms(1,2,4) by (simp add: exec_module_def finish_def split: option.splits)
  have pending: "wait_deleted k c 1 = None"
    using assms(5) by (intro wait_deleted_pending) simp
  have ended: "wait_deleted fuel c 1 = Some (concat (replicate k [CallGet, Sleep 20]) @ [CallGet])"
    if "\<not> truthy (get_instance c (Suc k))" and "k < fuel" for fuel
    using assms(5) that by (intro wait_deleted_done) simp_all
  show ?thesis
    using pending ended by (simp add: run)
qed

text \<open>
  C6. The claim: with target \<^verbatim>\<open>present\<close>, a resource that exists and a desired field that
  differs, each module decides \<open>Update\<close>, reports \<^verbatim>\<open>changed = True\<close> and calls
  \<^verbatim>\<open>create_or_update\<close>. The code of the DevTest Labs modules: the desired location differs
  from the actual one, and the comparison is never made, because its first argument
  \<^verbatim>\<open>self.parameters\<close> is an attribute that nothing assigns; the invocation ends in
  \<^verbatim>\<open>AttributeError\<close> after the lookup, without a decision and without the call.
\<close>

theorem devtest_update_raises:
  "default_compare (PDict want_west) (PDict user_east) '''' = Inr False \<and>
   exec_module 0 client_user (user Present False want_west)
     = Some (Raise AttributeError, [CallGet]) \<and>
   exec_module 0 client_user (environment Present False want_west)
     = Some (Raise AttributeError, [CallGet])"
  by (simp add: exec_module_def decide_def get_instance_def client_user_def user_def
      environment_def user_east_def want_west_def dict_get_def)

text \<open>
  The firewall rule module, whose first argument is the dictionary of its two addresses,
  does what the claim says: it decides \<open>Update\<close> and, outside check mode, calls
  \<^verbatim>\<open>create_or_update\<close> once with its payload and reports \<^verbatim>\<open>changed = True\<close> with the \<^verbatim>\<open>id\<close>
  of the answer.
\<close>

lemma update_when_different:
  assumes "state m = Present" and "get_reply c 0 = Returned d" and "d \<noteq> []"
    and "desired m = Inr new" and "default_compare new (PDict d) '''' = Inr False"
  shows "decide (state m) (desired m) (get_instance c 0) = Inr Update \<and>
         exec_module fuel c m =
           Some (if check_mode m then (Exit \<lparr>changed = True, returned = []\<rparr>, [CallGet])
                 else ((case create_or_update_reply c (payload m) of
                          Returned r \<Rightarrow>
                            Exit \<lparr>changed = True,
                                  returned = map (\<lambda>k. (k, dict_get r k)) (item_keys m)\<rparr>
                        | CloudError f \<Rightarrow> Fail (ErrorCreating f)),
                       [CallGet, CallCreateOrUpdate (payload m)]))"
proof -
  have old: "get_instance c 0 = PDict d"
    using assms(2) by (rule get_instance_found)
  have d: "decide (state m) (desired m) (get_instance c 0) = Inr Update"
    using assms(1,3,4,5) by (simp add: old decide_def)
  show ?thesis
    using d assms(1)
    by (simp add: exec_module_def finish_def format_item_def split: reply.splits)
qed

lemma firewallrule_update:
  "exec_module 0 client_there (want_9 Present False)
     = Some (Exit \<lparr>changed = True, returned = [(''id'', PStr ''rule1'')]\<rparr>,
             [CallGet, CallCreateOrUpdate (payload (want_9 Present False))])"
  by (simp add: exec_module_def decide_def finish_def format_item_def get_instance_def
      client_there_def want_9_def firewallrule_def rule_5_def rule_9_def dict_get_def)

text \<open>
  C9, as the claim states it, fails: a lookup that succeeds with an empty dictionary is
  taken for a resource that does not exist, and with target \<^verbatim>\<open>present\<close> the module
  decides \<open>Create\<close>.
\<close>

theorem empty_mapping_taken_for_absence:
  "get_instance client_empty 0 = PDict [] \<and>
   decide Present (desired (want_9 Present False)) (get_instance client_empty 0) = Inr Create"
  by (simp add: get_instance_def client_empty_def decide_def)

text \<open>
  C9, amended. The lookup returns the distinguished value \<^verbatim>\<open>False\<close> exactly when the
  client raised \<^verbatim>\<open>CloudError\<close>, but the decision tests the truth value of what the lookup
  returned (\<^verbatim>\<open>if not old_response\<close>): an empty dictionary is decided upon exactly as
  \<^verbatim>\<open>False\<close> is, and a lookup result counts as an existing resource exactly when it is a
  dictionary that is not empty.
\<close>

theorem existence_is_truth_value:
  "(get_instance c n = PBool False \<longleftrightarrow> (\<exists>f. get_reply c n = CloudError f)) \<and>
   decide st des (PDict []) = decide st des (PBool False) \<and>
   (d \<noteq> [] \<longrightarrow> decide Absent des (PDict d) = Inr Delete \<and>
                decide Present des (PDict d) \<noteq> Inr Create)"
proof -
  have a: "get_instance c n = PBool False \<longleftrightarrow> (\<exists>f. get_reply c n = CloudError f)"
    by (cases "get_reply c n") (simp_all add: get_instance_def)
  have b: "decide st des (PDict []) = decide st des (PBool False)"
    by (simp add: decide_def)
  have c: "decide Absent des (PDict d) = Inr Delete \<and> decide Present des (PDict d) \<noteq> Inr Create"
    if "d \<noteq> []"
    using that by (simp add: decide_def split: sum.splits)
  from a b c show ?thesis by blast
qed

theorem existence_is_truth_value_witness:
  "rule_5 \<noteq> [] \<and> decide Absent (Inr PNone) (PDict rule_5) = Inr Delete \<and>
   decide Present (Inr PNone) (PDict rule_5) \<noteq> Inr Create"
proof -
  have h: "rule_5 \<noteq> []"
    by (simp add: rule_5_def)
  from existence_is_truth_value [of client_there 0 Present "Inr PNone" rule_5] h
  show ?thesis by blast
qed

end
